theory Spec2Isabelle
  imports Complex_Main
begin

section \<open>Availability resolution (CalendarTools.findMeetingSlots, isTimeFree)\<close>

subsection \<open>Dates\<close>

text \<open>
  A JavaScript \<open>Date\<close> is modelled by its time value: the integral number of milliseconds
  since the epoch (\<open>getTime()\<close>). Only valid dates are modelled (no \<open>Invalid Date\<close>), and
  the host's local time zone is a fixed offset \<open>tz\<close> in milliseconds (\<open>LocalTime(t) = t + tz\<close>),
  so no daylight-saving transition falls inside the modelled window. The accessors below
  follow the ECMAScript definitions of \<open>Day\<close>, \<open>HourFromTime\<close>, \<open>MinFromTime\<close>,
  \<open>SecFromTime\<close>, \<open>msFromTime\<close>, \<open>WeekDay\<close>, \<open>MakeTime\<close> and \<open>MakeDate\<close>.
\<close>

type_synonym date = int

definition msPerSecond :: int where
  "msPerSecond = 1000"

definition msPerMinute :: int where
  "msPerMinute = msPerSecond * 60"

definition msPerHour :: int where
  "msPerHour = msPerMinute * 60"

definition msPerDay :: int where
  "msPerDay = msPerHour * 24"

definition LocalTime :: "int \<Rightarrow> date \<Rightarrow> int" where
  "LocalTime tz t = t + tz"

definition Day :: "int \<Rightarrow> int" where
  "Day t = t div msPerDay"

definition getHours :: "int \<Rightarrow> date \<Rightarrow> int" where
  "getHours tz t = (LocalTime tz t div msPerHour) mod 24"

definition getMinutes :: "int \<Rightarrow> date \<Rightarrow> int" where
  "getMinutes tz t = (LocalTime tz t div msPerMinute) mod 60"

definition getSeconds :: "int \<Rightarrow> date \<Rightarrow> int" where
  "getSeconds tz t = (LocalTime tz t div msPerSecond) mod 60"

definition getMilliseconds :: "int \<Rightarrow> date \<Rightarrow> int" where
  "getMilliseconds tz t = LocalTime tz t mod msPerSecond"

text \<open>\<open>getDay()\<close>: 0 is Sunday, 6 is Saturday; 1 January 1970 was a Thursday (4).\<close>

definition getDay :: "int \<Rightarrow> date \<Rightarrow> int" where
  "getDay tz t = (Day (LocalTime tz t) + 4) mod 7"

text \<open>
  \<open>d.setMinutes(m)\<close> rebuilds the local time from the date's own day, hour, second and
  millisecond with the minute replaced by \<open>m\<close> (which may exceed 59), and converts back.
\<close>

definition setMinutes :: "int \<Rightarrow> date \<Rightarrow> int \<Rightarrow> date" where
  "setMinutes tz t m =
     (Day (LocalTime tz t) * msPerDay
        + (getHours tz t * msPerHour + m * msPerMinute
             + getSeconds tz t * msPerSecond + getMilliseconds tz t))
     - tz"

text \<open>\<open>timeSlot.setMinutes(timeSlot.getMinutes() + 30)\<close>\<close>

definition nextTick :: "int \<Rightarrow> date \<Rightarrow> date" where
  "nextTick tz t = setMinutes tz t (getMinutes tz t + 30)"

subsection \<open>Schedules as the resolver reads them\<close>

text \<open>
  The schedule objects are loosely typed in the source. The resolver reads two fields:
  \<open>freeBusyViewInfo\<close>, only for its truthiness, and \<open>busyTimes\<close>, an array of intervals
  that may be absent. A field that is absent reads as \<open>undefined\<close>.
\<close>

datatype js_value =
    JUndefined
  | JNull
  | JBool bool
  | JNum int
  | JNaN
  | JStr string
  | JObj

fun truthy :: "js_value \<Rightarrow> bool" where
  "truthy JUndefined = False"
| "truthy JNull = False"
| "truthy (JBool b) = b"
| "truthy (JNum n) = (n \<noteq> 0)"
| "truthy JNaN = False"
| "truthy (JStr s) = (s \<noteq> [])"
| "truthy JObj = True"

text \<open>
  A busy interval, with \<open>new Date(busyTime.start.dateTime)\<close> and
  \<open>new Date(busyTime.end.dateTime)\<close> already taken.
\<close>

record busy_time =
  busyStart :: date
  busyEnd :: date

record schedule =
  freeBusyViewInfo :: js_value
  busyTimes :: "busy_time list option"

record slot =
  start :: date
  end' :: date
  availableAttendees :: nat

subsection \<open>isTimeFree\<close>

text \<open>The \<open>for (const busyTime of ...)\<close> loop: the first overlapping interval returns false.\<close>

fun busyLoop :: "busy_time list \<Rightarrow> date \<Rightarrow> date \<Rightarrow> bool" where
  "busyLoop [] startTime endTime = True"
| "busyLoop (busyTime # rest) startTime endTime =
     (if startTime < busyEnd busyTime \<and> endTime > busyStart busyTime then False
      else busyLoop rest startTime endTime)"

definition isTimeFree :: "schedule \<Rightarrow> date \<Rightarrow> int \<Rightarrow> bool" where
  "isTimeFree sched startTime duration =
     (if \<not> truthy (freeBusyViewInfo sched) then True
      else
        let endTime = startTime + duration * 60 * 1000
        in busyLoop (case busyTimes sched of None \<Rightarrow> [] | Some bs \<Rightarrow> bs) startTime endTime)"

subsection \<open>findMeetingSlots\<close>

text \<open>The counting loop over \<open>schedules\<close>, with \<open>availableCount\<close> as the accumulator.\<close>

fun countLoop :: "schedule list \<Rightarrow> date \<Rightarrow> int \<Rightarrow> nat \<Rightarrow> nat" where
  "countLoop [] timeSlot duration availableCount = availableCount"
| "countLoop (sched # rest) timeSlot duration availableCount =
     countLoop rest timeSlot duration
       (if isTimeFree sched timeSlot duration then availableCount + 1 else availableCount)"

definition availableCountAt :: "schedule list \<Rightarrow> date \<Rightarrow> int \<Rightarrow> nat" where
  "availableCountAt schedules timeSlot duration = countLoop schedules timeSlot duration 0"

text \<open>\<open>Math.ceil(attendees.length / 2)\<close>\<close>

definition ceilHalf :: "nat \<Rightarrow> nat" where
  "ceilHalf n = nat \<lceil>real n / 2\<rceil>"

lemma time_within_day:
  fixes l S :: int
  assumes "0 \<le> S"
  shows "l div (S * 60 * 60) mod 24 * (S * 60 * 60) + ((l div (S * 60)) mod 60 + 30) * (S * 60)
             + (l div S) mod 60 * S + l mod S
           = l mod (S * 60 * 60 * 24) + 30 * (S * 60)"
proof -
  have a: "l mod (S * 60 * 60 * 24)
             = (S * 60 * 60) * (l div (S * 60 * 60) mod 24) + l mod (S * 60 * 60)"
    by (rule zmod_zmult2_eq) simp
  have b: "l mod (S * 60 * 60) = (S * 60) * (l div (S * 60) mod 60) + l mod (S * 60)"
    by (rule zmod_zmult2_eq) simp
  have c: "l mod (S * 60) = S * (l div S mod 60) + l mod S"
    by (rule zmod_zmult2_eq) simp
  show ?thesis unfolding a b c by (simp add: algebra_simps)
qed

lemma nextTick_msPerMinute: "nextTick tz t = t + 30 * msPerMinute"
proof -
  have S: "0 \<le> msPerSecond"
    by (simp add: msPerSecond_def)
  have "nextTick tz t =
      (t + tz) div msPerDay * msPerDay + ((t + tz) mod msPerDay + 30 * msPerMinute) - tz"
    unfolding nextTick_def setMinutes_def getHours_def getMinutes_def getSeconds_def
      getMilliseconds_def Day_def LocalTime_def msPerDay_def msPerHour_def msPerMinute_def
    by (simp only: time_within_day [OF S])
  also have "\<dots> =
      ((t + tz) div msPerDay * msPerDay + (t + tz) mod msPerDay) + 30 * msPerMinute - tz"
    by (simp only: add.assoc)
  also have "\<dots> = t + 30 * msPerMinute"
    by (simp only: div_mult_mod_eq)
  finally show ?thesis .
qed

lemma nextTick_eq: "nextTick tz t = t + 1800000"
  by (simp add: nextTick_msPerMinute msPerMinute_def msPerSecond_def)

text \<open>
  The \<open>while (timeSlot < endDate)\<close> loop. \<open>slots\<close> is the array being filled; \<open>break\<close>
  returns it as it is, \<open>continue\<close> goes on from the next tick with it unchanged.
  \<open>duration\<close> is an integral number of minutes of either sign; \<open>attendees\<close> is read for its
  length only.
\<close>

function slotLoop ::
  "int \<Rightarrow> schedule list \<Rightarrow> int \<Rightarrow> date \<Rightarrow> string list \<Rightarrow> date \<Rightarrow> slot list \<Rightarrow> slot list" where
  "slotLoop tz schedules duration endDate attendees timeSlot slots =
     (if timeSlot < endDate then
        let durationMs = duration * 60 * 1000;
            slotEnd = timeSlot + durationMs
        in
          if slotEnd > endDate then slots
          else if getHours tz timeSlot < 9 \<or> getHours tz timeSlot \<ge> 17 then
            slotLoop tz schedules duration endDate attendees (nextTick tz timeSlot) slots
          else if getDay tz timeSlot = 0 \<or> getDay tz timeSlot = 6 then
            slotLoop tz schedules duration endDate attendees (nextTick tz timeSlot) slots
          else
            let availableCount = availableCountAt schedules timeSlot duration
            in slotLoop tz schedules duration endDate attendees (nextTick tz timeSlot)
                 (if availableCount \<ge> ceilHalf (length attendees)
                  then slots @ [\<lparr>start = timeSlot, end' = slotEnd,
                                 availableAttendees = availableCount\<rparr>]
                  else slots)
      else slots)"
  by pat_completeness auto
termination
  by (relation "measure (\<lambda>(tz, schedules, duration, endDate, attendees, timeSlot, slots).
        nat (endDate - timeSlot))") (auto simp: nextTick_eq)

declare slotLoop.simps [simp del]

text \<open>The comparator handed to \<open>sort\<close>.\<close>

definition compareSlots :: "slot \<Rightarrow> slot \<Rightarrow> int" where
  "compareSlots a b =
     (if availableAttendees b \<noteq> availableAttendees a
      then int (availableAttendees b) - int (availableAttendees a)
      else start a - start b)"

text \<open>
  \<open>Array.prototype.sort\<close> is the engine's: for a consistent comparator it returns the
  stable sorted permutation. It is modelled by stable insertion sort, which computes that
  permutation; \<open>slice(0, 10)\<close> is \<open>take 10\<close>.
\<close>

fun insertBy :: "('a \<Rightarrow> 'a \<Rightarrow> int) \<Rightarrow> 'a \<Rightarrow> 'a list \<Rightarrow> 'a list" where
  "insertBy cmp x [] = [x]"
| "insertBy cmp x (y # ys) = (if cmp x y \<le> 0 then x # y # ys else y # insertBy cmp x ys)"

definition sortBy :: "('a \<Rightarrow> 'a \<Rightarrow> int) \<Rightarrow> 'a list \<Rightarrow> 'a list" where
  "sortBy cmp xs = foldr (insertBy cmp) xs []"

definition collectSlots ::
  "int \<Rightarrow> schedule list \<Rightarrow> int \<Rightarrow> date \<Rightarrow> date \<Rightarrow> string list \<Rightarrow> slot list" where
  "collectSlots tz schedules duration startDate endDate attendees =
     slotLoop tz schedules duration endDate attendees startDate []"

definition findMeetingSlots ::
  "int \<Rightarrow> schedule list \<Rightarrow> int \<Rightarrow> date \<Rightarrow> date \<Rightarrow> string list \<Rightarrow> slot list" where
  "findMeetingSlots tz schedules duration startDate endDate attendees =
     take 10 (sortBy compareSlots (collectSlots tz schedules duration startDate endDate attendees))"

subsection \<open>Notions used to state the resolver's properties\<close>

text \<open>
  A tick passes the structural filters when the loop neither stops at it nor skips it:
  it lies before the window end, its slot ends inside the window, its local hour is in
  the band 9 to 17 (end-exclusive) and its local weekday is neither Sunday (0) nor
  Saturday (6).
\<close>

definition structurallyValid :: "int \<Rightarrow> int \<Rightarrow> date \<Rightarrow> date \<Rightarrow> bool" where
  "structurallyValid tz duration endDate t =
     (t < endDate \<and> t + duration * 60 * 1000 \<le> endDate
      \<and> 9 \<le> getHours tz t \<and> getHours tz t < 17
      \<and> getDay tz t \<noteq> 0 \<and> getDay tz t \<noteq> 6)"

text \<open>The object pushed for the tick \<open>t\<close>.\<close>

definition slotAt :: "schedule list \<Rightarrow> int \<Rightarrow> date \<Rightarrow> slot" where
  "slotAt schedules duration t =
     \<lparr>start = t, end' = t + duration * 60 * 1000,
      availableAttendees = availableCountAt schedules t duration\<rparr>"

text \<open>The slots pushed from the tick \<open>t\<close> onwards, as a set.\<close>

definition retainedFrom ::
  "int \<Rightarrow> schedule list \<Rightarrow> int \<Rightarrow> date \<Rightarrow> string list \<Rightarrow> date \<Rightarrow> slot set" where
  "retainedFrom tz schedules duration endDate attendees t =
     {slotAt schedules duration u | u k.
        u = t + 1800000 * int k \<and> structurallyValid tz duration endDate u
        \<and> ceilHalf (length attendees) \<le> availableCountAt schedules u duration}"

text \<open>The order the comparator induces: more available attendees first, then earlier start.\<close>

definition rankedBefore :: "slot \<Rightarrow> slot \<Rightarrow> bool" where
  "rankedBefore a b =
     (availableAttendees b < availableAttendees a
      \<or> (availableAttendees a = availableAttendees b \<and> start a \<le> start b))"

text \<open>
  The scenario of three attendees on Monday 5 January 1970, 09:00 to 11:00 UTC
  (378000000 to 385200000), 30 minutes: the first is busy 09:00 to 09:30, the other two
  have schedules with no busy interval.
\<close>

definition busyAttendee :: schedule where
  "busyAttendee =
     \<lparr>freeBusyViewInfo = JStr ''2000'',
      busyTimes = Some [\<lparr>busyStart = 378000000, busyEnd = 379800000\<rparr>]\<rparr>"

definition freeAttendee :: schedule where
  "freeAttendee = \<lparr>freeBusyViewInfo = JStr ''0000'', busyTimes = Some []\<rparr>"

text \<open>
  A schedule object with no \<open>freeBusyViewInfo\<close> whose \<open>busyTimes\<close> cover 09:00 to 09:30.
\<close>

definition unmarkedBusyAttendee :: schedule where
  "unmarkedBusyAttendee =
     \<lparr>freeBusyViewInfo = JUndefined,
      busyTimes = Some [\<lparr>busyStart = 378000000, busyEnd = 379800000\<rparr>]\<rparr>"

text \<open>A schedule object that carries neither field.\<close>

definition noDataAttendee :: schedule where
  "noDataAttendee = \<lparr>freeBusyViewInfo = JUndefined, busyTimes = None\<rparr>"

section \<open>Token lifecycle (GraphAuthProvider, MCPTeamsServer.start)\<close>

subsection \<open>The provider's state\<close>

text \<open>A JavaScript \<open>Error\<close> with its message; a rejected promise carries one.\<close>

datatype error = Error string

text \<open>\<open>AccountInfo\<close>, with the fields the provider reads.\<close>

record account =
  homeAccountId :: string
  username :: string
  tenantId :: string

text \<open>
  The fields of \<open>GraphAuthProvider\<close> that change: \<open>currentAccount\<close> (the Session) and
  \<open>graphClient\<close>, both \<open>null\<close> at construction.
\<close>

record provider =
  currentAccount :: "account option"
  graphClient :: "unit option"

definition newProvider :: provider where
  "newProvider = \<lparr>currentAccount = None, graphClient = None\<rparr>"

subsection \<open>Admission checks\<close>

definition expectedTenantId :: string where
  "expectedTenantId = ''6b104499-c49f-45dc-b3a2-df95efd6eeb4''"

text \<open>\<open>String.prototype.endsWith\<close> with one argument.\<close>

definition endsWith :: "string \<Rightarrow> string \<Rightarrow> bool" where
  "endsWith s searchString =
     (length searchString \<le> length s
      \<and> drop (length s - length searchString) s = searchString)"

text \<open>
  Both checks are \<open>async\<close>: \<open>Inr b\<close> is the promise fulfilled with \<open>b\<close>, \<open>Inl e\<close> the promise
  rejected with \<open>e\<close>.
\<close>

definition validateTenant :: "provider \<Rightarrow> error + bool" where
  "validateTenant p =
     (case currentAccount p of
        None \<Rightarrow> Inr False
      | Some acct \<Rightarrow>
          if tenantId acct \<noteq> expectedTenantId then Inr False else Inr True)"

definition validateUser :: "provider \<Rightarrow> error + bool" where
  "validateUser p =
     (case currentAccount p of
        None \<Rightarrow> Inr False
      | Some acct \<Rightarrow>
          if \<not> endsWith (username acct) ''@timelarp.com'' then Inr False else Inr True)"

subsection \<open>Interactive login\<close>

text \<open>
  One login attempt: the provider it writes to, and whether the express server is bound to
  port 3000.
\<close>

record login =
  owner :: provider
  listening :: bool

text \<open>What a handler does to the promise of \<open>interactiveLogin\<close>.\<close>

datatype settle = Resolve | Reject error

text \<open>
  What can happen while the promise is pending: the callback of \<open>app.listen\<close> runs, where
  \<open>getAuthCodeUrl\<close> or \<open>open\<close> may throw; or a request to \<open>/redirect\<close> arrives, with its
  \<open>code\<close> query parameter and the answer \<open>acquireTokenByCode\<close> gives for it (the account
  of the token response may be \<open>null\<close>).
\<close>

datatype event =
    ListenCallback "error option"
  | Redirect "string option" "error + account option"

definition timeoutError :: error where
  "timeoutError = Error ''Authentication timeout - no response received within 5 minutes''"

text \<open>The handler of \<open>GET /redirect\<close>; \<open>!code\<close> holds for an absent and for an empty code.\<close>

definition onRedirect :: "login \<Rightarrow> string option \<Rightarrow> error + account option \<Rightarrow> login \<times> settle option" where
  "onRedirect st code exchange =
     (if code = None \<or> code = Some [] then
        (st, Some (Reject (Error ''No authorization code received'')))
      else
        case exchange of
          Inr acct \<Rightarrow>
            (st\<lparr>owner := (owner st)\<lparr>currentAccount := acct\<rparr>, listening := False\<rparr>, Some Resolve)
        | Inl e \<Rightarrow> (st, Some (Reject e)))"

definition onListenCallback :: "login \<Rightarrow> error option \<Rightarrow> login \<times> settle option" where
  "onListenCallback st thrown =
     (case thrown of None \<Rightarrow> (st, None) | Some e \<Rightarrow> (st, Some (Reject e)))"

text \<open>The \<open>setTimeout\<close> callback.\<close>

definition onTimeout :: "login \<Rightarrow> login \<times> settle" where
  "onTimeout st = (st\<lparr>listening := False\<rparr>, Reject timeoutError)"

fun handleEvent :: "login \<Rightarrow> event \<Rightarrow> login \<times> settle option" where
  "handleEvent st (ListenCallback thrown) = onListenCallback st thrown"
| "handleEvent st (Redirect code exchange) = onRedirect st code exchange"

text \<open>
  The caller resumes at the first handler that settles the promise. \<open>events\<close> is what
  happens within the five minutes; when none of it settles the promise, the timer fires.
\<close>

fun awaitSettled :: "login \<Rightarrow> event list \<Rightarrow> login \<times> settle" where
  "awaitSettled st [] = onTimeout st"
| "awaitSettled st (e # es) =
     (case handleEvent st e of
        (st', Some r) \<Rightarrow> (st', r)
      | (st', None) \<Rightarrow> awaitSettled st' es)"

text \<open>\<open>app.listen(port)\<close> binds the port; the state and the settlement at the return.\<close>

definition interactiveLogin :: "provider \<Rightarrow> event list \<Rightarrow> login \<times> settle" where
  "interactiveLogin p events = awaitSettled \<lparr>owner = p, listening = True\<rparr> events"

subsection \<open>authenticate, getGraphClient, signOut\<close>

text \<open>
  \<open>accounts\<close> is what \<open>getAllAccounts\<close> returns, \<open>silentOk\<close> whether the library's
  \<open>acquireTokenSilent\<close> succeeds. The result is the promise's: \<open>Inr ()\<close> fulfilled,
  \<open>Inl e\<close> rejected.
\<close>

definition authenticate ::
  "provider \<Rightarrow> account list \<Rightarrow> bool \<Rightarrow> event list \<Rightarrow> (error + unit) \<times> provider" where
  "authenticate p accounts silentOk events =
     (let p1 = (if length accounts > 0 then p\<lparr>currentAccount := Some (accounts ! 0)\<rparr> else p)
      in
        if length accounts > 0 \<and> silentOk then (Inr (), p1)
        else
          case interactiveLogin p1 events of
            (st, Resolve) \<Rightarrow> (Inr (), owner st)
          | (st, Reject e) \<Rightarrow> (Inl e, owner st))"

definition getGraphClient :: "provider \<Rightarrow> provider" where
  "getGraphClient p = (if graphClient p = None then p\<lparr>graphClient := Some ()\<rparr> else p)"

text \<open>
  \<open>signOut\<close>: the keychain entry and the cache file are removed inside \<open>try\<close> blocks whose
  handlers only log; the provider's fields are cleared either way.
\<close>

definition signOut :: "provider \<Rightarrow> provider" where
  "signOut p =
     (if currentAccount p \<noteq> None then p\<lparr>currentAccount := None, graphClient := None\<rparr>
      else p)"

subsection \<open>MCPTeamsServer.start\<close>

datatype outcome = Running | Exit nat

text \<open>
  \<open>connectOk\<close>: whether \<open>server.connect\<close> succeeds. Every throw inside
  \<open>MCPTeamsServer.start\<close> is caught and ends the process with status 1. The provider is
  returned as it is at that moment.
\<close>

definition MCPTeamsServer_start ::
  "provider \<Rightarrow> account list \<Rightarrow> bool \<Rightarrow> event list \<Rightarrow> bool \<Rightarrow> outcome \<times> provider" where
  "MCPTeamsServer_start p accounts silentOk events connectOk =
     (case authenticate p accounts silentOk events of
        (Inl e, p1) \<Rightarrow> (Exit 1, p1)
      | (Inr u, p1) \<Rightarrow>
          (case validateTenant p1 of
             Inl e \<Rightarrow> (Exit 1, p1)
           | Inr isValidTenant \<Rightarrow>
               if \<not> isValidTenant then (Exit 1, p1)
               else
                 (case validateUser p1 of
                    Inl e \<Rightarrow> (Exit 1, p1)
                  | Inr isValidUser \<Rightarrow>
                      if \<not> isValidUser then (Exit 1, p1)
                      else
                        let p2 = getGraphClient p1
                        in if connectOk then (Running, p2) else (Exit 1, p2))))"

text \<open>The provider states the operations that write to it can produce.\<close>

inductive reachable :: "provider \<Rightarrow> bool" where
  constructed: "reachable newProvider"
| authenticated: "reachable p \<Longrightarrow> reachable (snd (authenticate p accounts silentOk events))"
| client: "reachable p \<Longrightarrow> reachable (getGraphClient p)"
| signedOut: "reachable p \<Longrightarrow> reachable (signOut p)"

subsection \<open>The token cache plugin\<close>

text \<open>
  The cache directory and the token cache file, and the \<open>cacheContext\<close> the library hands
  to the hooks. The in-memory cache \<open>'c\<close> with its \<open>serialize\<close> and \<open>deserialize\<close> is the
  library's: both are parameters, and both may throw. So may every file operation: a
  fault \<open>Some e\<close> makes it throw \<open>e\<close>.
\<close>

record files =
  cacheDir :: bool
  tokenCacheFile :: "string option"

record 'c cacheContext =
  hasChanged :: bool
  tokenCache :: 'c

definition readFile :: "error option \<Rightarrow> files \<Rightarrow> error + string" where
  "readFile fault fs =
     (case fault of
        Some e \<Rightarrow> Inl e
      | None \<Rightarrow>
          (case tokenCacheFile fs of
             None \<Rightarrow> Inl (Error ''ENOENT: no such file or directory'')
           | Some data \<Rightarrow> Inr data))"

definition mkdir :: "error option \<Rightarrow> files \<Rightarrow> error + files" where
  "mkdir fault fs = (case fault of Some e \<Rightarrow> Inl e | None \<Rightarrow> Inr (fs\<lparr>cacheDir := True\<rparr>))"

definition writeFile :: "error option \<Rightarrow> files \<Rightarrow> string \<Rightarrow> error + files" where
  "writeFile fault fs data =
     (case fault of
        Some e \<Rightarrow> Inl e
      | None \<Rightarrow>
          if cacheDir fs then Inr (fs\<lparr>tokenCacheFile := Some data\<rparr>)
          else Inl (Error ''ENOENT: no such file or directory''))"

text \<open>The \<open>try\<close> block of \<open>beforeCacheAccess\<close>.\<close>

definition beforeCacheAccess_try ::
  "(string \<Rightarrow> 'c \<Rightarrow> error + 'c) \<Rightarrow> error option \<Rightarrow> files \<Rightarrow> 'c cacheContext
     \<Rightarrow> error + 'c cacheContext" where
  "beforeCacheAccess_try deserialize readFault fs cacheContext =
     (case readFile readFault fs of
        Inl e \<Rightarrow> Inl e
      | Inr data \<Rightarrow>
          (case deserialize data (tokenCache cacheContext) of
             Inl e \<Rightarrow> Inl e
           | Inr cache \<Rightarrow> Inr (cacheContext\<lparr>tokenCache := cache\<rparr>)))"

text \<open>
  The hooks are \<open>async\<close>: \<open>Inr\<close> is the promise fulfilled, with the state the hook leaves and
  the console log; \<open>Inl e\<close> is the promise rejected with \<open>e\<close>.
\<close>

definition beforeCacheAccess ::
  "(string \<Rightarrow> 'c \<Rightarrow> error + 'c) \<Rightarrow> error option \<Rightarrow> files \<Rightarrow> 'c cacheContext \<Rightarrow> string list
     \<Rightarrow> error + ('c cacheContext \<times> string list)" where
  "beforeCacheAccess deserialize readFault fs cacheContext console =
     (case beforeCacheAccess_try deserialize readFault fs cacheContext of
        Inr cacheContext' \<Rightarrow> Inr (cacheContext', console)
      | Inl e \<Rightarrow>
          Inr (cacheContext, console @ [''No existing token cache found, will create new one'']))"

text \<open>
  The \<open>try\<close> block of \<open>afterCacheAccess\<close>: the files as the block leaves them, and what it
  threw.
\<close>

definition afterCacheAccess_try ::
  "('c \<Rightarrow> error + string) \<Rightarrow> error option \<Rightarrow> error option \<Rightarrow> files \<Rightarrow> 'c cacheContext
     \<Rightarrow> files \<times> error option" where
  "afterCacheAccess_try serialize mkdirFault writeFault fs cacheContext =
     (case mkdir mkdirFault fs of
        Inl e \<Rightarrow> (fs, Some e)
      | Inr fs1 \<Rightarrow>
          (case serialize (tokenCache cacheContext) of
             Inl e \<Rightarrow> (fs1, Some e)
           | Inr data \<Rightarrow>
               (case writeFile writeFault fs1 data of
                  Inl e \<Rightarrow> (fs1, Some e)
                | Inr fs2 \<Rightarrow> (fs2, None))))"

definition afterCacheAccess ::
  "('c \<Rightarrow> error + string) \<Rightarrow> error option \<Rightarrow> error option \<Rightarrow> files \<Rightarrow> 'c cacheContext
     \<Rightarrow> string list \<Rightarrow> error + (files \<times> string list)" where
  "afterCacheAccess serialize mkdirFault writeFault fs cacheContext console =
     (if hasChanged cacheContext then
        (case afterCacheAccess_try serialize mkdirFault writeFault fs cacheContext of
           (fs', None) \<Rightarrow> Inr (fs', console @ [''Token cache updated''])
         | (fs', Some e) \<Rightarrow> Inr (fs', console @ [''Failed to write token cache:'']))
      else Inr (fs, console))"

subsection \<open>Example accounts and caches\<close>

text \<open>
  An account of the configured tenant and domain, one of the domain but of another tenant,
  and one of the tenant but of another domain.
\<close>

definition memberAccount :: account where
  "memberAccount =
     \<lparr>homeAccountId = ''member'', username = ''alice@timelarp.com'',
      tenantId = ''6b104499-c49f-45dc-b3a2-df95efd6eeb4''\<rparr>"

definition guestAccount :: account where
  "guestAccount =
     \<lparr>homeAccountId = ''guest'', username = ''bob@timelarp.com'',
      tenantId = ''00000000-0000-0000-0000-000000000000''\<rparr>"

definition contractorAccount :: account where
  "contractorAccount =
     \<lparr>homeAccountId = ''contractor'', username = ''carol@partner.example'',
      tenantId = ''6b104499-c49f-45dc-b3a2-df95efd6eeb4''\<rparr>"

text \<open>A cache whose serialised form is itself, for the examples.\<close>

definition plainSerialize :: "string \<Rightarrow> error + string" where
  "plainSerialize cache = Inr cache"

definition plainDeserialize :: "string \<Rightarrow> string \<Rightarrow> error + string" where
  "plainDeserialize data cache = Inr data"

section \<open>Properties of the availability resolver\<close>

subsection \<open>Auxiliary facts\<close>

lemmas time_defs = getHours_def getDay_def Day_def LocalTime_def msPerDay_def msPerHour_def
  msPerMinute_def msPerSecond_def

lemma countLoop_acc:
  "countLoop ss t d acc = acc + length (filter (\<lambda>s. isTimeFree s t d) ss)"
  by (induction ss arbitrary: acc) auto

lemma availableCountAt_filter:
  "availableCountAt ss t d = length (filter (\<lambda>s. isTimeFree s t d) ss)"
  by (simp add: availableCountAt_def countLoop_acc)

lemma ceilHalf_div: "ceilHalf n = (n + 1) div 2"
  unfolding ceilHalf_def by linarith

lemma ceiling_half_div: "nat \<lceil>real n / 2\<rceil> = (n + 1) div 2"
  using ceilHalf_div [of n] by (simp add: ceilHalf_def)

lemma retainedFrom_past:
  assumes "\<not> t < endDate"
  shows "retainedFrom tz schedules duration endDate attendees t = {}"
proof -
  have "\<not> structurallyValid tz duration endDate (t + 1800000 * int k)" for k
    using assms by (simp add: structurallyValid_def)
  then show ?thesis by (auto simp: retainedFrom_def)
qed

lemma retainedFrom_beyond:
  assumes "endDate < t + duration * 60 * 1000"
  shows "retainedFrom tz schedules duration endDate attendees t = {}"
proof -
  have "\<not> structurallyValid tz duration endDate (t + 1800000 * int k)" for k
    using assms by (simp add: structurallyValid_def)
  then show ?thesis by (auto simp: retainedFrom_def)
qed

lemma retainedFrom_step:
  "retainedFrom tz schedules duration endDate attendees t =
     (if structurallyValid tz duration endDate t
         \<and> ceilHalf (length attendees) \<le> availableCountAt schedules t duration
      then {slotAt schedules duration t} else {})
     \<union> retainedFrom tz schedules duration endDate attendees (t + 1800000)"
  (is "?L = ?H \<union> ?T")
proof (rule set_eqI)
  fix s
  show "s \<in> ?L \<longleftrightarrow> s \<in> ?H \<union> ?T"
  proof
    assume "s \<in> ?L"
    then obtain k where k: "s = slotAt schedules duration (t + 1800000 * int k)"
      "structurallyValid tz duration endDate (t + 1800000 * int k)"
      "ceilHalf (length attendees) \<le> availableCountAt schedules (t + 1800000 * int k) duration"
      by (auto simp: retainedFrom_def)
    show "s \<in> ?H \<union> ?T"
    proof (cases k)
      case 0
      with k show ?thesis by simp
    next
      case (Suc j)
      have "t + 1800000 * int k = (t + 1800000) + 1800000 * int j"
        using Suc by simp
      with k have "s \<in> ?T"
        unfolding retainedFrom_def by blast
      then show ?thesis by simp
    qed
  next
    assume "s \<in> ?H \<union> ?T"
    then consider (here) "s \<in> ?H" | (later) "s \<in> ?T" by blast
    then show "s \<in> ?L"
    proof cases
      case here
      then have "s = slotAt schedules duration (t + 1800000 * int 0)"
        "structurallyValid tz duration endDate (t + 1800000 * int 0)"
        "ceilHalf (length attendees) \<le> availableCountAt schedules (t + 1800000 * int 0) duration"
        by (auto split: if_splits)
      then show ?thesis unfolding retainedFrom_def by blast
    next
      case later
      then obtain j where j: "s = slotAt schedules duration ((t + 1800000) + 1800000 * int j)"
        "structurallyValid tz duration endDate ((t + 1800000) + 1800000 * int j)"
        "ceilHalf (length attendees)
           \<le> availableCountAt schedules ((t + 1800000) + 1800000 * int j) duration"
        by (auto simp: retainedFrom_def)
      have "(t + 1800000) + 1800000 * int j = t + 1800000 * int (Suc j)"
        by simp
      with j show ?thesis unfolding retainedFrom_def by blast
    qed
  qed
qed

text \<open>One round of the loop, with \<open>break\<close> and the two \<open>continue\<close>s folded together.\<close>

lemma slotLoop_unfold:
  "slotLoop tz schedules duration endDate attendees t slots =
     (if t < endDate \<and> t + duration * 60 * 1000 \<le> endDate then
        slotLoop tz schedules duration endDate attendees (t + 1800000)
          (if structurallyValid tz duration endDate t
              \<and> ceilHalf (length attendees) \<le> availableCountAt schedules t duration
           then slots @ [slotAt schedules duration t] else slots)
      else slots)"
  by (subst slotLoop.simps) (auto simp: Let_def nextTick_eq structurallyValid_def slotAt_def)

lemma set_slotLoop:
  "set (slotLoop tz schedules duration endDate attendees t slots) =
     set slots \<union> retainedFrom tz schedules duration endDate attendees t"
proof (induction "nat (endDate - t)" arbitrary: t slots rule: less_induct)
  case less
  show ?case
  proof (cases "t < endDate \<and> t + duration * 60 * 1000 \<le> endDate")
    case False
    then have "retainedFrom tz schedules duration endDate attendees t = {}"
      using retainedFrom_past retainedFrom_beyond by (metis not_le_imp_less)
    moreover have "slotLoop tz schedules duration endDate attendees t slots = slots"
      using False by (subst slotLoop_unfold) auto
    ultimately show ?thesis by simp
  next
    case True
    let ?slots' = "if structurallyValid tz duration endDate t
              \<and> ceilHalf (length attendees) \<le> availableCountAt schedules t duration
           then slots @ [slotAt schedules duration t] else slots"
    have "nat (endDate - (t + 1800000)) < nat (endDate - t)"
      using True by simp
    then have IH: "set (slotLoop tz schedules duration endDate attendees (t + 1800000) ?slots') =
        set ?slots' \<union> retainedFrom tz schedules duration endDate attendees (t + 1800000)"
      by (rule less.hyps)
    have "slotLoop tz schedules duration endDate attendees t slots =
        slotLoop tz schedules duration endDate attendees (t + 1800000) ?slots'"
      using True by (subst slotLoop_unfold) simp
    then have "set (slotLoop tz schedules duration endDate attendees t slots) =
        set ?slots' \<union> retainedFrom tz schedules duration endDate attendees (t + 1800000)"
      using IH by simp
    also have "\<dots> = set slots \<union> retainedFrom tz schedules duration endDate attendees t"
      by (subst (2) retainedFrom_step) auto
    finally show ?thesis .
  qed
qed

lemma set_collectSlots:
  "set (collectSlots tz schedules duration startDate endDate attendees) =
     retainedFrom tz schedules duration endDate attendees startDate"
  by (simp add: collectSlots_def set_slotLoop)

lemma collectSlotsE:
  assumes "s \<in> set (collectSlots tz schedules duration startDate endDate attendees)"
  obtains k where "s = slotAt schedules duration (startDate + 1800000 * int k)"
    and "structurallyValid tz duration endDate (startDate + 1800000 * int k)"
    and "ceilHalf (length attendees)
           \<le> availableCountAt schedules (startDate + 1800000 * int k) duration"
  using assms unfolding set_collectSlots retainedFrom_def by blast

lemma collectSlotsI:
  assumes "structurallyValid tz duration endDate (startDate + 1800000 * int k)"
    and "ceilHalf (length attendees)
           \<le> availableCountAt schedules (startDate + 1800000 * int k) duration"
  shows "slotAt schedules duration (startDate + 1800000 * int k)
           \<in> set (collectSlots tz schedules duration startDate endDate attendees)"
  using assms unfolding set_collectSlots retainedFrom_def by blast

lemma set_insertBy: "set (insertBy cmp x ys) = insert x (set ys)"
  by (induction ys) auto

lemma set_sortBy: "set (sortBy cmp xs) = set xs"
  unfolding sortBy_def by (induction xs) (simp_all add: set_insertBy)

lemma set_findMeetingSlots_subset:
  "set (findMeetingSlots tz schedules duration startDate endDate attendees)
     \<subseteq> set (collectSlots tz schedules duration startDate endDate attendees)"
  unfolding findMeetingSlots_def using set_take_subset [of 10] by (fastforce simp: set_sortBy)

lemma compareSlots_le_0: "compareSlots a b \<le> 0 \<longleftrightarrow> rankedBefore a b"
  by (auto simp: compareSlots_def rankedBefore_def)

lemma rankedBefore_total: "\<not> rankedBefore a b \<Longrightarrow> rankedBefore b a"
  by (auto simp: rankedBefore_def)

lemma rankedBefore_trans: "rankedBefore a b \<Longrightarrow> rankedBefore b c \<Longrightarrow> rankedBefore a c"
  by (auto simp: rankedBefore_def)

lemma sorted_insertBy:
  "sorted_wrt rankedBefore ys \<Longrightarrow> sorted_wrt rankedBefore (insertBy compareSlots x ys)"
proof (induction ys)
  case Nil
  then show ?case by simp
next
  case (Cons y ys)
  show ?case
  proof (cases "compareSlots x y \<le> 0")
    case True
    then have xy: "rankedBefore x y" by (simp add: compareSlots_le_0)
    have "\<forall>z\<in>set ys. rankedBefore x z"
      using Cons.prems xy rankedBefore_trans by auto
    with True xy Cons.prems show ?thesis by simp
  next
    case False
    then have yx: "rankedBefore y x"
      using rankedBefore_total by (simp add: compareSlots_le_0)
    have "sorted_wrt rankedBefore (insertBy compareSlots x ys)"
      using Cons by simp
    with False yx Cons.prems show ?thesis
      by (simp add: set_insertBy)
  qed
qed

lemma sorted_sortBy: "sorted_wrt rankedBefore (sortBy compareSlots xs)"
  unfolding sortBy_def by (induction xs) (simp_all add: sorted_insertBy)

lemma isTimeFree_no_data:
  assumes "\<not> truthy (freeBusyViewInfo sched) \<or> busyTimes sched = None \<or> busyTimes sched = Some []"
  shows "isTimeFree sched t duration"
  using assms by (auto simp: isTimeFree_def)

lemma availableCountAt_free_entry:
  assumes "isTimeFree sched t duration"
  shows "availableCountAt (pre @ sched # post) t duration
           = availableCountAt (pre @ post) t duration + 1"
  using assms by (simp add: availableCountAt_filter)

lemma availableAttendees_collectSlots:
  assumes "s \<in> set (collectSlots tz schedules duration startDate endDate attendees)"
  shows "availableAttendees s = availableCountAt schedules (start s) duration"
proof -
  from assms obtain j where "s = slotAt schedules duration (startDate + 1800000 * int j)"
    by (rule collectSlotsE)
  then show ?thesis by (simp add: slotAt_def)
qed

text \<open>The scenario, evaluated.\<close>

lemma scenario_collectSlots:
  "collectSlots 0 [busyAttendee, freeAttendee, freeAttendee] 30 378000000 385200000
     [''a'', ''b'', ''c''] =
   [\<lparr>start = 378000000, end' = 379800000, availableAttendees = 2\<rparr>,
    \<lparr>start = 379800000, end' = 381600000, availableAttendees = 3\<rparr>,
    \<lparr>start = 381600000, end' = 383400000, availableAttendees = 3\<rparr>,
    \<lparr>start = 383400000, end' = 385200000, availableAttendees = 3\<rparr>]"
  by (simp add: collectSlots_def slotLoop.simps nextTick_eq time_defs availableCountAt_def
      isTimeFree_def busyAttendee_def freeAttendee_def ceilHalf_div)

lemma scenario_findMeetingSlots:
  "findMeetingSlots 0 [busyAttendee, freeAttendee, freeAttendee] 30 378000000 385200000
     [''a'', ''b'', ''c''] =
   [\<lparr>start = 379800000, end' = 381600000, availableAttendees = 3\<rparr>,
    \<lparr>start = 381600000, end' = 383400000, availableAttendees = 3\<rparr>,
    \<lparr>start = 383400000, end' = 385200000, availableAttendees = 3\<rparr>,
    \<lparr>start = 378000000, end' = 379800000, availableAttendees = 2\<rparr>]"
  by (simp add: findMeetingSlots_def scenario_collectSlots sortBy_def compareSlots_def)

subsection \<open>The majority threshold\<close>

text \<open>
  Claim C4. Let \<open>t\<close> be a tick of the loop, 30 minutes times \<open>k\<close> after the window start, that
  passes the structural filters: it lies before the window end, its slot ends inside the
  window, its local hour is in the band from 9 to 17 (end-exclusive) and its weekday is
  neither Sunday nor Saturday. Then the slot of \<open>t\<close> is pushed to \<open>slots\<close> if and only if
  the number of schedules that \<open>isTimeFree\<close> reports free is at least the ceiling of half
  the number of attendees, for every number of attendees; no other slot starting at \<open>t\<close>
  is pushed; and with an empty attendee list the slot is always pushed. Retained means
  pushed to \<open>slots\<close>, before ranking and truncation. The threshold is written out as the
  ceiling of the real quotient, not through the model's \<open>ceilHalf\<close>.
\<close>

theorem majority_threshold_retention:
  fixes k :: nat
  assumes tick: "t = startDate + 1800000 * int k"
    and window: "t < endDate" "t + duration * 60 * 1000 \<le> endDate"
    and hours: "9 \<le> getHours tz t" "getHours tz t < 17"
    and weekday: "getDay tz t \<noteq> 0" "getDay tz t \<noteq> 6"
  shows
    "(\<lparr>start = t, end' = t + duration * 60 * 1000,
       availableAttendees = length (filter (\<lambda>s. isTimeFree s t duration) schedules)\<rparr>
        \<in> set (collectSlots tz schedules duration startDate endDate attendees)
      \<longleftrightarrow> nat \<lceil>real (length attendees) / 2\<rceil>
            \<le> length (filter (\<lambda>s. isTimeFree s t duration) schedules))
     \<and> (\<forall>s \<in> set (collectSlots tz schedules duration startDate endDate attendees).
           start s = t \<longrightarrow>
           s = \<lparr>start = t, end' = t + duration * 60 * 1000,
                 availableAttendees = length (filter (\<lambda>s. isTimeFree s t duration) schedules)\<rparr>)
     \<and> (attendees = [] \<longrightarrow>
           \<lparr>start = t, end' = t + duration * 60 * 1000,
             availableAttendees = length (filter (\<lambda>s. isTimeFree s t duration) schedules)\<rparr>
             \<in> set (collectSlots tz schedules duration startDate endDate attendees))"
proof -
  let ?slot = "\<lparr>start = t, end' = t + duration * 60 * 1000,
       availableAttendees = length (filter (\<lambda>s. isTimeFree s t duration) schedules)\<rparr>"
  let ?slots = "collectSlots tz schedules duration startDate endDate attendees"
  let ?enough = "ceilHalf (length attendees)
            \<le> length (filter (\<lambda>s. isTimeFree s t duration) schedules)"
  have slot: "?slot = slotAt schedules duration t"
    by (simp add: slotAt_def availableCountAt_filter)
  have valid: "structurallyValid tz duration endDate (startDate + 1800000 * int k)"
    using assms by (simp add: structurallyValid_def)
  have valid': "structurallyValid tz duration endDate t"
    using valid tick by simp
  have only: "s = slotAt schedules duration t" if "s \<in> set ?slots" "start s = t" for s
  proof -
    from that(1) obtain j where "s = slotAt schedules duration (startDate + 1800000 * int j)"
      by (rule collectSlotsE)
    moreover from this that(2) have "startDate + 1800000 * int j = t"
      by (simp add: slotAt_def)
    ultimately show ?thesis by simp
  qed
  have "?enough" if "slotAt schedules duration t \<in> set ?slots"
  proof -
    from that obtain j where
      j: "slotAt schedules duration t = slotAt schedules duration (startDate + 1800000 * int j)"
      "ceilHalf (length attendees)
           \<le> availableCountAt schedules (startDate + 1800000 * int j) duration"
      by (rule collectSlotsE)
    from j(1) have "startDate + 1800000 * int j = t"
      by (simp add: slotAt_def)
    with j(2) show ?thesis by (simp add: availableCountAt_filter)
  qed
  moreover have "slotAt schedules duration t \<in> set ?slots" if "?enough"
    using collectSlotsI [OF valid, of attendees schedules] that
    unfolding tick [symmetric] availableCountAt_filter by simp
  moreover have "?enough" if "attendees = []"
    using that by (simp add: ceilHalf_div)
  ultimately show ?thesis unfolding slot ceilHalf_def [symmetric] using only by blast
qed

text \<open>
  The witness of C4 is the scenario's first tick, Monday 09:00: the threshold for three
  attendees is two; with two of three schedules free the slot is retained, and with one of
  two schedules free it is not.
\<close>

theorem majority_threshold_retention_witness:
  "\<lparr>start = 378000000, end' = 379800000, availableAttendees = 2\<rparr>
     \<in> set (collectSlots 0 [busyAttendee, freeAttendee, freeAttendee] 30 378000000 385200000
              [''a'', ''b'', ''c''])
   \<and> nat \<lceil>real (length [''a'', ''b'', ''c'']) / 2\<rceil> = 2
   \<and> length (filter (\<lambda>s. isTimeFree s 378000000 30)
             [busyAttendee, freeAttendee, freeAttendee]) = 2
   \<and> \<lparr>start = 378000000, end' = 379800000, availableAttendees = 1\<rparr>
     \<notin> set (collectSlots 0 [busyAttendee, freeAttendee] 30 378000000 385200000
              [''a'', ''b'', ''c''])
   \<and> length (filter (\<lambda>s. isTimeFree s 378000000 30) [busyAttendee, freeAttendee]) = 1"
proof -
  have n: "length (filter (\<lambda>s. isTimeFree s 378000000 30)
             [busyAttendee, freeAttendee, freeAttendee]) = 2"
    by (simp add: isTimeFree_def busyAttendee_def freeAttendee_def)
  have m: "length (filter (\<lambda>s. isTimeFree s 378000000 30) [busyAttendee, freeAttendee]) = 1"
    by (simp add: isTimeFree_def busyAttendee_def freeAttendee_def)
  have threshold: "nat \<lceil>real (length [''a'', ''b'', ''c'']) / 2\<rceil> = 2"
    by simp
  have clock: "9 \<le> getHours 0 378000000" "getHours 0 378000000 < 17"
    "getDay 0 378000000 \<noteq> 0" "getDay 0 378000000 \<noteq> 6"
    by (simp_all add: time_defs)
  have tick: "(378000000::int) = 378000000 + 1800000 * int 0"
    "(378000000::int) < 385200000" "(378000000::int) + 30 * 60 * 1000 \<le> 385200000"
    by simp_all
  note inst = majority_threshold_retention [OF tick clock, of _ "[''a'', ''b'', ''c'']"]
  have "\<lparr>start = 378000000, end' = 378000000 + 30 * 60 * 1000,
       availableAttendees = length (filter (\<lambda>s. isTimeFree s 378000000 30)
             [busyAttendee, freeAttendee, freeAttendee])\<rparr>
     \<in> set (collectSlots 0 [busyAttendee, freeAttendee, freeAttendee] 30 378000000 385200000
              [''a'', ''b'', ''c''])"
    using inst [of "[busyAttendee, freeAttendee, freeAttendee]"] threshold n by simp
  moreover have "\<lparr>start = 378000000, end' = 378000000 + 30 * 60 * 1000,
       availableAttendees = length (filter (\<lambda>s. isTimeFree s 378000000 30)
             [busyAttendee, freeAttendee])\<rparr>
     \<notin> set (collectSlots 0 [busyAttendee, freeAttendee] 30 378000000 385200000
              [''a'', ''b'', ''c''])"
    using inst [of "[busyAttendee, freeAttendee]"] threshold m by simp
  ultimately show ?thesis using threshold n m by simp
qed

subsection \<open>Ranking and truncation\<close>

text \<open>
  Claim C5. For every input, the list \<open>findMeetingSlots\<close> returns is sorted by descending
  \<open>availableAttendees\<close>, slots with equal counts being in ascending order of start, and it
  has at most 10 elements.
\<close>

theorem ranked_and_truncated:
  "sorted_wrt (\<lambda>a b. availableAttendees b < availableAttendees a
                 \<or> (availableAttendees a = availableAttendees b \<and> start a \<le> start b))
     (findMeetingSlots tz schedules duration startDate endDate attendees)
   \<and> length (findMeetingSlots tz schedules duration startDate endDate attendees) \<le> 10"
proof -
  have "sorted_wrt rankedBefore
      (take 10 (sortBy compareSlots
         (collectSlots tz schedules duration startDate endDate attendees)))"
    using sorted_sortBy by (rule sorted_wrt_take)
  then show ?thesis
    by (simp add: findMeetingSlots_def rankedBefore_def [abs_def])
qed

text \<open>The witness of C5 is the ranked result of the scenario.\<close>

theorem ranked_and_truncated_witness:
  "sorted_wrt (\<lambda>a b. availableAttendees b < availableAttendees a
                 \<or> (availableAttendees a = availableAttendees b \<and> start a \<le> start b))
     [\<lparr>start = 379800000, end' = 381600000, availableAttendees = 3\<rparr>,
      \<lparr>start = 381600000, end' = 383400000, availableAttendees = 3\<rparr>,
      \<lparr>start = 383400000, end' = 385200000, availableAttendees = 3\<rparr>,
      \<lparr>start = 378000000, end' = 379800000, availableAttendees = 2\<rparr>]
   \<and> length (findMeetingSlots 0 [busyAttendee, freeAttendee, freeAttendee] 30
               378000000 385200000 [''a'', ''b'', ''c'']) \<le> 10"
  using ranked_and_truncated [of 0 "[busyAttendee, freeAttendee, freeAttendee]" 30
      378000000 385200000 "[''a'', ''b'', ''c'']"]
  unfolding scenario_findMeetingSlots .

subsection \<open>Business hours and weekdays\<close>

text \<open>
  Claim C6. For every input, every slot pushed to \<open>slots\<close>, and so every slot returned,
  starts at a local hour in the band from 9 to 17 (end-exclusive) on a weekday other than
  Sunday (0) and Saturday (6). The filter reads the start only: a tick that lies in the
  window, starts inside the band on a business day and meets the threshold has its slot
  pushed whatever the hour and weekday of its end. With local time equal to UTC, the window
  Monday 16:45 to 17:15 (405900000 to 407700000) and 30 minutes give the slot from 16:45 to
  17:15, whose end has hour 17.
\<close>

theorem business_hours_filter_on_start_only:
  "(\<forall>s \<in> set (collectSlots tz schedules duration startDate endDate attendees).
      9 \<le> getHours tz (start s) \<and> getHours tz (start s) < 17
      \<and> getDay tz (start s) \<noteq> 0 \<and> getDay tz (start s) \<noteq> 6)
   \<and> (\<forall>s \<in> set (findMeetingSlots tz schedules duration startDate endDate attendees).
      9 \<le> getHours tz (start s) \<and> getHours tz (start s) < 17
      \<and> getDay tz (start s) \<noteq> 0 \<and> getDay tz (start s) \<noteq> 6)
   \<and> (t = startDate + 1800000 * int k \<and> t < endDate \<and> t + duration * 60 * 1000 \<le> endDate
        \<and> 9 \<le> getHours tz t \<and> getHours tz t < 17 \<and> getDay tz t \<noteq> 0 \<and> getDay tz t \<noteq> 6
        \<and> ceilHalf (length attendees) \<le> availableCountAt schedules t duration
      \<longrightarrow> (\<exists>s \<in> set (collectSlots tz schedules duration startDate endDate attendees).
             start s = t \<and> end' s = t + duration * 60 * 1000))
   \<and> findMeetingSlots 0 [] 30 405900000 407700000 [] =
        [\<lparr>start = 405900000, end' = 407700000, availableAttendees = 0\<rparr>]
   \<and> getDay 0 405900000 = 1
   \<and> getHours 0 405900000 = 16 \<and> getMinutes 0 405900000 = 45
   \<and> getHours 0 407700000 = 17 \<and> getMinutes 0 407700000 = 15"
proof -
  let ?ok = "\<lambda>s. 9 \<le> getHours tz (start s) \<and> getHours tz (start s) < 17
      \<and> getDay tz (start s) \<noteq> 0 \<and> getDay tz (start s) \<noteq> 6"
  have pushed: "?ok s"
    if "s \<in> set (collectSlots tz schedules duration startDate endDate attendees)" for s
  proof -
    from that obtain j where "s = slotAt schedules duration (startDate + 1800000 * int j)"
      and "structurallyValid tz duration endDate (startDate + 1800000 * int j)"
      by (rule collectSlotsE)
    then show ?thesis by (simp add: slotAt_def structurallyValid_def)
  qed
  then have returned: "?ok s"
    if "s \<in> set (findMeetingSlots tz schedules duration startDate endDate attendees)" for s
    using that set_findMeetingSlots_subset by blast
  have kept: "\<exists>s \<in> set (collectSlots tz schedules duration startDate endDate attendees).
             start s = t \<and> end' s = t + duration * 60 * 1000"
    if "t = startDate + 1800000 * int k" "t < endDate" "t + duration * 60 * 1000 \<le> endDate"
      "9 \<le> getHours tz t" "getHours tz t < 17" "getDay tz t \<noteq> 0" "getDay tz t \<noteq> 6"
      "ceilHalf (length attendees) \<le> availableCountAt schedules t duration"
  proof -
    have "structurallyValid tz duration endDate (startDate + 1800000 * int k)"
      using that by (simp add: structurallyValid_def)
    then have "slotAt schedules duration t
        \<in> set (collectSlots tz schedules duration startDate endDate attendees)"
      using collectSlotsI [of tz duration endDate startDate k attendees schedules] that
      by simp
    moreover have "start (slotAt schedules duration t) = t"
      "end' (slotAt schedules duration t) = t + duration * 60 * 1000"
      by (simp_all add: slotAt_def)
    ultimately show ?thesis by blast
  qed
  have late: "findMeetingSlots 0 [] 30 405900000 407700000 [] =
        [\<lparr>start = 405900000, end' = 407700000, availableAttendees = 0\<rparr>]"
    by (simp add: findMeetingSlots_def collectSlots_def slotLoop.simps nextTick_eq time_defs
        availableCountAt_def ceilHalf_div sortBy_def)
  have clock: "getDay 0 405900000 = 1"
    "getHours 0 405900000 = 16" "getMinutes 0 405900000 = 45"
    "getHours 0 407700000 = 17" "getMinutes 0 407700000 = 15"
    by (simp_all add: time_defs getMinutes_def)
  show ?thesis
    using pushed returned kept late clock by blast
qed

text \<open>The witness of C6 is the scenario's slot at Monday 09:00.\<close>

theorem business_hours_filter_on_start_only_witness:
  "\<lparr>start = 378000000, end' = 379800000, availableAttendees = 2\<rparr>
     \<in> set (findMeetingSlots 0 [busyAttendee, freeAttendee, freeAttendee] 30
              378000000 385200000 [''a'', ''b'', ''c''])
   \<and> 9 \<le> getHours 0 378000000 \<and> getHours 0 378000000 < 17
   \<and> getDay 0 378000000 \<noteq> 0 \<and> getDay 0 378000000 \<noteq> 6"
proof -
  have "\<lparr>start = 378000000, end' = 379800000, availableAttendees = 2\<rparr>
     \<in> set (findMeetingSlots 0 [busyAttendee, freeAttendee, freeAttendee] 30
              378000000 385200000 [''a'', ''b'', ''c''])"
    unfolding scenario_findMeetingSlots by simp
  with business_hours_filter_on_start_only [of 0 "[busyAttendee, freeAttendee, freeAttendee]"
      30 378000000 385200000 "[''a'', ''b'', ''c'']"]
  show ?thesis by fastforce
qed

subsection \<open>Window containment\<close>

text \<open>
  Claim C7. For every input, no slot pushed to \<open>slots\<close>, and so no slot returned, ends
  after the window end; and when the window is strictly shorter than the duration, nothing
  is pushed and the result is empty.
\<close>

theorem slot_end_within_window:
  "(\<forall>s \<in> set (collectSlots tz schedules duration startDate endDate attendees).
      end' s \<le> endDate)
   \<and> (\<forall>s \<in> set (findMeetingSlots tz schedules duration startDate endDate attendees).
      end' s \<le> endDate)
   \<and> (endDate - startDate < duration * 60 * 1000 \<longrightarrow>
        collectSlots tz schedules duration startDate endDate attendees = []
        \<and> findMeetingSlots tz schedules duration startDate endDate attendees = [])"
proof -
  have pushed: "end' s \<le> endDate"
    if "s \<in> set (collectSlots tz schedules duration startDate endDate attendees)" for s
  proof -
    from that obtain j where "s = slotAt schedules duration (startDate + 1800000 * int j)"
      and "structurallyValid tz duration endDate (startDate + 1800000 * int j)"
      by (rule collectSlotsE)
    then show ?thesis by (simp add: slotAt_def structurallyValid_def)
  qed
  then have returned: "end' s \<le> endDate"
    if "s \<in> set (findMeetingSlots tz schedules duration startDate endDate attendees)" for s
    using that set_findMeetingSlots_subset by blast
  have short: "collectSlots tz schedules duration startDate endDate attendees = []
        \<and> findMeetingSlots tz schedules duration startDate endDate attendees = []"
    if "endDate - startDate < duration * 60 * 1000"
  proof -
    have "collectSlots tz schedules duration startDate endDate attendees = []"
      unfolding collectSlots_def using that by (subst slotLoop_unfold) simp
    then show ?thesis by (simp add: findMeetingSlots_def sortBy_def)
  qed
  show ?thesis using pushed returned short by blast
qed

text \<open>
  The witness of C7 is the scenario's last slot, which ends at the window end, and the
  scenario with the window cut to 20 minutes.
\<close>

theorem slot_end_within_window_witness:
  "end' \<lparr>start = 383400000, end' = 385200000, availableAttendees = 3\<rparr> \<le> 385200000
   \<and> \<lparr>start = 383400000, end' = 385200000, availableAttendees = 3\<rparr>
       \<in> set (findMeetingSlots 0 [busyAttendee, freeAttendee, freeAttendee] 30
              378000000 385200000 [''a'', ''b'', ''c''])
   \<and> (379200000::int) - 378000000 < 30 * 60 * 1000
   \<and> findMeetingSlots 0 [busyAttendee, freeAttendee, freeAttendee] 30
              378000000 379200000 [''a'', ''b'', ''c''] = []"
proof -
  have short: "(379200000::int) - 378000000 < 30 * 60 * 1000"
    by simp
  have "findMeetingSlots 0 [busyAttendee, freeAttendee, freeAttendee] 30
              378000000 379200000 [''a'', ''b'', ''c''] = []"
    using slot_end_within_window [of 0 "[busyAttendee, freeAttendee, freeAttendee]" 30
      378000000 379200000 "[''a'', ''b'', ''c'']"] short by blast
  moreover have "\<lparr>start = 383400000, end' = 385200000, availableAttendees = 3\<rparr>
       \<in> set (findMeetingSlots 0 [busyAttendee, freeAttendee, freeAttendee] 30
              378000000 385200000 [''a'', ''b'', ''c''])"
    unfolding scenario_findMeetingSlots by simp
  ultimately show ?thesis by simp
qed


subsection \<open>Schedules without data\<close>

text \<open>
  Claim C1 says that, for every call, an attendee for whom no schedule data was supplied is
  treated as free and never lowers a slot's count. It fails for an attendee who is listed
  in \<open>attendees\<close> and has no entry in \<open>schedules\<close>: the count loop ranges over \<open>schedules\<close>,
  while the threshold is taken from \<open>attendees.length\<close>. With one attendee and no schedule
  entry, the tick Monday 09:00 passes the structural filters, its count is 0, the threshold
  is 1, and nothing is returned; with an entry without data for that attendee, the four
  slots of the window are returned, each with one available attendee.
\<close>

theorem absent_schedule_entry_counterexample:
  "structurallyValid 0 30 385200000 378000000
   \<and> availableCountAt [] 378000000 30 = 0
   \<and> nat \<lceil>real (length [''a'']) / 2\<rceil> = 1
   \<and> findMeetingSlots 0 [] 30 378000000 385200000 [''a''] = []
   \<and> findMeetingSlots 0 [noDataAttendee] 30 378000000 385200000 [''a''] =
       [\<lparr>start = 378000000, end' = 379800000, availableAttendees = 1\<rparr>,
        \<lparr>start = 379800000, end' = 381600000, availableAttendees = 1\<rparr>,
        \<lparr>start = 381600000, end' = 383400000, availableAttendees = 1\<rparr>,
        \<lparr>start = 383400000, end' = 385200000, availableAttendees = 1\<rparr>]"
proof -
  have valid: "structurallyValid 0 30 385200000 378000000"
    by (simp add: structurallyValid_def time_defs)
  have count: "availableCountAt [] 378000000 30 = 0"
    by (simp add: availableCountAt_def)
  have threshold: "nat \<lceil>real (length [''a'']) / 2\<rceil> = 1"
    using ceiling_half_div [of "length [''a'']"] by simp
  have none: "findMeetingSlots 0 [] 30 378000000 385200000 [''a''] = []"
    by (simp add: findMeetingSlots_def collectSlots_def slotLoop.simps nextTick_eq time_defs
        availableCountAt_def ceilHalf_def sortBy_def)
  have entry: "findMeetingSlots 0 [noDataAttendee] 30 378000000 385200000 [''a''] =
       [\<lparr>start = 378000000, end' = 379800000, availableAttendees = 1\<rparr>,
        \<lparr>start = 379800000, end' = 381600000, availableAttendees = 1\<rparr>,
        \<lparr>start = 381600000, end' = 383400000, availableAttendees = 1\<rparr>,
        \<lparr>start = 383400000, end' = 385200000, availableAttendees = 1\<rparr>]"
    by (simp add: findMeetingSlots_def collectSlots_def slotLoop.simps nextTick_eq time_defs
        availableCountAt_def isTimeFree_def noDataAttendee_def ceilHalf_def sortBy_def
        compareSlots_def)
  show ?thesis using valid count threshold none entry by simp
qed

text \<open>
  Claim C1, amended. An entry of \<open>schedules\<close> whose \<open>freeBusyViewInfo\<close> is falsy (absent
  included) or whose \<open>busyTimes\<close> is absent or empty is free at every tick and for every
  duration; it adds exactly one to the count of free attendees of every tick, whatever the
  other entries are; and so the \<open>availableAttendees\<close> of every slot pushed or returned by a
  call that has such an entry is the count of the other entries plus one. The count ranges
  over the entries of \<open>schedules\<close> only: for every call, the \<open>availableAttendees\<close> of a pushed
  slot is the number of entries of \<open>schedules\<close> that are free at its start, at most the
  number of entries; an attendee without an entry is not counted, and when \<open>schedules\<close>
  has fewer entries than the ceiling of half the number of attendees, nothing is pushed
  and nothing is returned.
\<close>

theorem no_schedule_data_counts_as_free:
  assumes "\<not> truthy (freeBusyViewInfo sched) \<or> busyTimes sched = None
             \<or> busyTimes sched = Some []"
  shows "isTimeFree sched t duration
     \<and> availableCountAt (pre @ sched # post) t duration
           = availableCountAt (pre @ post) t duration + 1
     \<and> (\<forall>s \<in> set (collectSlots tz (pre @ sched # post) duration startDate endDate attendees).
           availableAttendees s = availableCountAt (pre @ post) (start s) duration + 1)
     \<and> (\<forall>s \<in> set (findMeetingSlots tz (pre @ sched # post) duration startDate endDate attendees).
           availableAttendees s = availableCountAt (pre @ post) (start s) duration + 1)
     \<and> (\<forall>s \<in> set (collectSlots tz schedules duration startDate endDate attendees).
           availableAttendees s
             = length (filter (\<lambda>x. isTimeFree x (start s) duration) schedules)
           \<and> availableAttendees s \<le> length schedules)
     \<and> (length schedules < nat \<lceil>real (length attendees) / 2\<rceil> \<longrightarrow>
           collectSlots tz schedules duration startDate endDate attendees = []
           \<and> findMeetingSlots tz schedules duration startDate endDate attendees = [])"
proof -
  have free: "isTimeFree sched u duration" for u
    using assms by (rule isTimeFree_no_data)
  have count: "availableCountAt (pre @ sched # post) u duration
           = availableCountAt (pre @ post) u duration + 1" for u
    using free by (rule availableCountAt_free_entry)
  have pushed: "availableAttendees s = availableCountAt (pre @ post) (start s) duration + 1"
    if "s \<in> set (collectSlots tz (pre @ sched # post) duration startDate endDate attendees)"
    for s
    using availableAttendees_collectSlots [OF that] count by simp
  then have returned:
    "availableAttendees s = availableCountAt (pre @ post) (start s) duration + 1"
    if "s \<in> set (findMeetingSlots tz (pre @ sched # post) duration startDate endDate attendees)"
    for s
    using that set_findMeetingSlots_subset by blast
  have entries: "availableAttendees s
             = length (filter (\<lambda>x. isTimeFree x (start s) duration) schedules)
           \<and> availableAttendees s \<le> length schedules"
    if "s \<in> set (collectSlots tz schedules duration startDate endDate attendees)" for s
    using availableAttendees_collectSlots [OF that] by (simp add: availableCountAt_filter)
  have short: "collectSlots tz schedules duration startDate endDate attendees = []
           \<and> findMeetingSlots tz schedules duration startDate endDate attendees = []"
    if few: "length schedules < nat \<lceil>real (length attendees) / 2\<rceil>"
  proof -
    have "s \<notin> set (collectSlots tz schedules duration startDate endDate attendees)" for s
    proof
      assume s: "s \<in> set (collectSlots tz schedules duration startDate endDate attendees)"
      then obtain j where "ceilHalf (length attendees)
           \<le> availableCountAt schedules (startDate + 1800000 * int j) duration"
        by (rule collectSlotsE)
      also have "\<dots> \<le> length schedules"
        by (simp add: availableCountAt_filter)
      finally show False using few by (simp add: ceilHalf_div ceiling_half_div)
    qed
    then have "collectSlots tz schedules duration startDate endDate attendees = []"
      by (cases "collectSlots tz schedules duration startDate endDate attendees") auto
    then show ?thesis by (simp add: findMeetingSlots_def sortBy_def)
  qed
  show ?thesis using free count pushed returned entries short by blast
qed

text \<open>
  The witness of the amended C1 is the entry with neither field, next to the attendee who
  is busy at Monday 09:00, the entry with an empty \<open>busyTimes\<close>, and the call with one
  attendee and no entry.
\<close>

theorem no_schedule_data_counts_as_free_witness:
  "busyTimes noDataAttendee = None
   \<and> isTimeFree noDataAttendee 378000000 30
   \<and> availableCountAt [busyAttendee] 378000000 30 = 0
   \<and> availableCountAt [busyAttendee, noDataAttendee] 378000000 30 = 1
   \<and> busyTimes freeAttendee = Some []
   \<and> isTimeFree freeAttendee 378000000 30
   \<and> length ([]::schedule list) < nat \<lceil>real (length [''a'']) / 2\<rceil>
   \<and> findMeetingSlots 0 [] 30 378000000 385200000 [''a''] = []"
proof -
  have none: "busyTimes noDataAttendee = None"
    by (simp add: noDataAttendee_def)
  have empty: "busyTimes freeAttendee = Some []"
    by (simp add: freeAttendee_def)
  have busy: "availableCountAt [busyAttendee] 378000000 30 = 0"
    by (simp add: availableCountAt_def isTimeFree_def busyAttendee_def)
  have few: "length ([]::schedule list) < nat \<lceil>real (length [''a'']) / 2\<rceil>"
    by simp
  have "isTimeFree noDataAttendee 378000000 30
     \<and> availableCountAt ([busyAttendee] @ noDataAttendee # []) 378000000 30
           = availableCountAt ([busyAttendee] @ []) 378000000 30 + 1"
    using no_schedule_data_counts_as_free [of noDataAttendee 378000000 30 "[busyAttendee]" "[]"]
      none by blast
  moreover have "isTimeFree freeAttendee 378000000 30"
    using no_schedule_data_counts_as_free [of freeAttendee 378000000 30] empty by blast
  moreover have "findMeetingSlots 0 [] 30 378000000 385200000 [''a''] = []"
    using no_schedule_data_counts_as_free
      [of noDataAttendee _ 30 _ _ 0 378000000 385200000 "[''a'']" "[]"] none few
    by blast
  ultimately show ?thesis using none empty busy few by simp
qed

text \<open>
  Claim C10. A schedule object whose \<open>freeBusyViewInfo\<close> is absent or falsy is free at
  every tick and for every duration, whatever its \<open>busyTimes\<close> are, also when they hold an
  interval that overlaps the slot; it adds one to the count of free attendees.
\<close>

theorem falsy_freeBusyViewInfo_overrides_busyTimes:
  assumes "\<not> truthy (freeBusyViewInfo sched)"
  shows "isTimeFree sched t duration
     \<and> availableCountAt (pre @ sched # post) t duration
           = availableCountAt (pre @ post) t duration + 1
     \<and> isTimeFree (sched\<lparr>busyTimes := Some (\<lparr>busyStart = t, busyEnd = t + 1\<rparr> # bs)\<rparr>) t duration"
proof -
  have "isTimeFree sched t duration"
    using assms by (simp add: isTimeFree_def)
  moreover from this have "availableCountAt (pre @ sched # post) t duration
           = availableCountAt (pre @ post) t duration + 1"
    by (rule availableCountAt_free_entry)
  moreover have
    "isTimeFree (sched\<lparr>busyTimes := Some (\<lparr>busyStart = t, busyEnd = t + 1\<rparr> # bs)\<rparr>) t duration"
    using assms by (simp add: isTimeFree_def)
  ultimately show ?thesis by blast
qed

text \<open>
  The witness of C10 is the schedule object without \<open>freeBusyViewInfo\<close> whose \<open>busyTimes\<close>
  cover Monday 09:00 to 09:30: the overlap test on its \<open>busyTimes\<close> fails for the slot at
  09:00, and it is counted free; the same interval under a truthy \<open>freeBusyViewInfo\<close> is
  busy.
\<close>

theorem falsy_freeBusyViewInfo_overrides_busyTimes_witness:
  "\<not> truthy (freeBusyViewInfo unmarkedBusyAttendee)
   \<and> busyTimes unmarkedBusyAttendee = Some [\<lparr>busyStart = 378000000, busyEnd = 379800000\<rparr>]
   \<and> \<not> busyLoop [\<lparr>busyStart = 378000000, busyEnd = 379800000\<rparr>]
          378000000 (378000000 + 30 * 60 * 1000)
   \<and> isTimeFree unmarkedBusyAttendee 378000000 30
   \<and> availableCountAt [unmarkedBusyAttendee] 378000000 30 = 1
   \<and> \<not> isTimeFree busyAttendee 378000000 30"
proof -
  have falsy: "\<not> truthy (freeBusyViewInfo unmarkedBusyAttendee)"
    by (simp add: unmarkedBusyAttendee_def)
  have "isTimeFree unmarkedBusyAttendee 378000000 30
     \<and> availableCountAt ([] @ unmarkedBusyAttendee # []) 378000000 30
           = availableCountAt ([] @ []) 378000000 30 + 1"
    using falsy_freeBusyViewInfo_overrides_busyTimes [OF falsy, of 378000000 30 "[]" "[]"]
    by blast
  moreover have "availableCountAt [] 378000000 30 = 0"
    by (simp add: availableCountAt_def)
  moreover have "\<not> isTimeFree busyAttendee 378000000 30"
    by (simp add: isTimeFree_def busyAttendee_def)
  ultimately show ?thesis using falsy by (simp add: unmarkedBusyAttendee_def)
qed

section \<open>Properties of the token lifecycle\<close>

subsection \<open>Auxiliary facts\<close>

lemma validateTenant_returns: "\<exists>b. validateTenant p = Inr b"
  by (auto simp: validateTenant_def split: option.split)

lemma validateUser_returns: "\<exists>b. validateUser p = Inr b"
  by (auto simp: validateUser_def split: option.split)

lemma validateUser_Some:
  "currentAccount p = Some acct \<Longrightarrow>
     validateUser p = Inr (endsWith (username acct) ''@timelarp.com'')"
  by (simp add: validateUser_def)

lemma validateTenant_Some:
  "currentAccount p = Some acct \<Longrightarrow> validateTenant p = Inr (tenantId acct = expectedTenantId)"
  by (simp add: validateTenant_def)

lemma authenticate_cached:
  "authenticate p (acct # accounts) True events = (Inr (), p\<lparr>currentAccount := Some acct\<rparr>)"
  by (simp add: authenticate_def)

lemma afterCacheAccess_returns:
  "\<exists>r. afterCacheAccess serialize mkdirFault writeFault fs cacheContext console = Inr r"
  by (auto simp: afterCacheAccess_def split: prod.split option.split)

lemma beforeCacheAccess_returns:
  "\<exists>r. beforeCacheAccess deserialize readFault fs cacheContext console = Inr r"
  by (auto simp: beforeCacheAccess_def split: sum.split)

subsection \<open>Admission checks\<close>

text \<open>
  Claim C8. With no Session (\<open>currentAccount\<close> is \<open>null\<close>), \<open>validateTenant\<close> and
  \<open>validateUser\<close> both return false; neither ever throws, whatever the provider's state.
  With a Session whose tenant identifier differs from the configured one,
  \<open>validateTenant\<close> returns false, while \<open>validateUser\<close> returns whether the username ends
  with \<open>@timelarp.com\<close>; replacing the tenant identifier of the account leaves the result of
  \<open>validateUser\<close> as it is.
\<close>

theorem admission_checks_fail_closed:
  "(currentAccount p = None \<longrightarrow> validateTenant p = Inr False \<and> validateUser p = Inr False)
   \<and> (\<exists>b. validateTenant p = Inr b) \<and> (\<exists>b. validateUser p = Inr b)
   \<and> (currentAccount p = Some acct \<and> tenantId acct \<noteq> expectedTenantId \<longrightarrow>
        validateTenant p = Inr False
        \<and> validateUser p = Inr (endsWith (username acct) ''@timelarp.com''))
   \<and> validateUser (p\<lparr>currentAccount := Some (acct\<lparr>tenantId := tid\<rparr>)\<rparr>)
        = validateUser (p\<lparr>currentAccount := Some acct\<rparr>)"
proof -
  have none: "validateTenant p = Inr False \<and> validateUser p = Inr False"
    if "currentAccount p = None"
    using that by (simp add: validateTenant_def validateUser_def)
  have other: "validateTenant p = Inr False
        \<and> validateUser p = Inr (endsWith (username acct) ''@timelarp.com'')"
    if "currentAccount p = Some acct" "tenantId acct \<noteq> expectedTenantId"
    using that by (simp add: validateTenant_Some validateUser_Some)
  have indep: "validateUser (p\<lparr>currentAccount := Some (acct\<lparr>tenantId := tid\<rparr>)\<rparr>)
        = validateUser (p\<lparr>currentAccount := Some acct\<rparr>)"
    by (simp add: validateUser_def)
  show ?thesis
    using none other indep validateTenant_returns validateUser_returns by blast
qed

text \<open>
  The witness of C8 is the new provider, and the provider holding an account of the domain
  but of another tenant.
\<close>

theorem admission_checks_fail_closed_witness:
  "currentAccount newProvider = None
   \<and> validateTenant newProvider = Inr False \<and> validateUser newProvider = Inr False
   \<and> tenantId guestAccount \<noteq> expectedTenantId
   \<and> validateTenant (newProvider\<lparr>currentAccount := Some guestAccount\<rparr>) = Inr False
   \<and> validateUser (newProvider\<lparr>currentAccount := Some guestAccount\<rparr>) = Inr True"
proof -
  have none: "currentAccount newProvider = None"
    by (simp add: newProvider_def)
  have some: "currentAccount (newProvider\<lparr>currentAccount := Some guestAccount\<rparr>) = Some guestAccount"
    by simp
  have tenant: "tenantId guestAccount \<noteq> expectedTenantId"
    by (simp add: guestAccount_def expectedTenantId_def)
  have suffix: "endsWith (username guestAccount) ''@timelarp.com''"
    by (simp add: guestAccount_def endsWith_def)
  from admission_checks_fail_closed [of newProvider] none
  have "validateTenant newProvider = Inr False \<and> validateUser newProvider = Inr False"
    by blast
  moreover from admission_checks_fail_closed
      [of "newProvider\<lparr>currentAccount := Some guestAccount\<rparr>" guestAccount] some tenant
  have "validateTenant (newProvider\<lparr>currentAccount := Some guestAccount\<rparr>) = Inr False
      \<and> validateUser (newProvider\<lparr>currentAccount := Some guestAccount\<rparr>)
          = Inr (endsWith (username guestAccount) ''@timelarp.com'')"
    by blast
  ultimately show ?thesis using none tenant suffix by simp
qed

subsection \<open>Sessions and admission\<close>

text \<open>
  Claim C3 says that a Session exists only if it has passed the tenant and domain checks, a
  Session that fails them being discarded. It fails: \<open>authenticate\<close> with one cached
  account of the configured tenant but of another domain, and a silent acquisition that
  succeeds, leaves that account in \<open>currentAccount\<close>; \<open>validateUser\<close> returns false for
  it; and \<open>MCPTeamsServer.start\<close> ends the process with status 1 while the provider still
  holds it.
\<close>

theorem session_without_admission_counterexample:
  "reachable (snd (authenticate newProvider [contractorAccount] True []))
   \<and> currentAccount (snd (authenticate newProvider [contractorAccount] True []))
        = Some contractorAccount
   \<and> validateTenant (snd (authenticate newProvider [contractorAccount] True [])) = Inr True
   \<and> validateUser (snd (authenticate newProvider [contractorAccount] True [])) = Inr False
   \<and> MCPTeamsServer_start newProvider [contractorAccount] True [] True
        = (Exit 1, \<lparr>currentAccount = Some contractorAccount, graphClient = None\<rparr>)"
proof -
  have "reachable (snd (authenticate newProvider [contractorAccount] True []))"
    by (intro reachable.intros)
  moreover have
    "validateTenant (newProvider\<lparr>currentAccount := Some contractorAccount\<rparr>) = Inr True"
    by (simp add: validateTenant_def contractorAccount_def expectedTenantId_def)
  moreover have
    "validateUser (newProvider\<lparr>currentAccount := Some contractorAccount\<rparr>) = Inr False"
    by (simp add: validateUser_def contractorAccount_def endsWith_def)
  ultimately show ?thesis
    by (simp add: MCPTeamsServer_start_def authenticate_cached newProvider_def)
qed

text \<open>
  Claim C3, amended. In every reachable state the provider holds at most one Session (the
  one \<open>currentAccount\<close> field). A Session is held before and whether or not it passes
  admission: \<open>authenticate\<close> with a cached account and a silent acquisition that succeeds
  fulfils with that account in \<open>currentAccount\<close>, whatever the account is. When
  \<open>MCPTeamsServer.start\<close> reaches the running server, a Session exists and it has passed
  both checks. When \<open>authenticate\<close> succeeds and a check returns false,
  \<open>MCPTeamsServer.start\<close> ends the process with status 1 and the provider is left as
  \<open>authenticate\<close> left it.
\<close>

theorem session_admission_at_start:
  "(reachable p \<longrightarrow> card (set_option (currentAccount p)) \<le> 1)
   \<and> authenticate p (firstAccount # cached) True events
        = (Inr (), p\<lparr>currentAccount := Some firstAccount\<rparr>)
   \<and> (MCPTeamsServer_start p accounts silentOk events connectOk = (Running, p') \<longrightarrow>
        (\<exists>acct. currentAccount p' = Some acct \<and> tenantId acct = expectedTenantId
                \<and> endsWith (username acct) ''@timelarp.com''))
   \<and> (authenticate p accounts silentOk events = (Inr (), q)
        \<and> (validateTenant q = Inr False \<or> validateUser q = Inr False) \<longrightarrow>
        MCPTeamsServer_start p accounts silentOk events connectOk = (Exit 1, q))"
proof -
  have one: "card (set_option (currentAccount p)) \<le> 1"
    by (cases "currentAccount p") simp_all
  have admitted: "\<exists>acct. currentAccount p' = Some acct \<and> tenantId acct = expectedTenantId
                \<and> endsWith (username acct) ''@timelarp.com''"
    if run: "MCPTeamsServer_start p accounts silentOk events connectOk = (Running, p')"
  proof -
    obtain r q where auth: "authenticate p accounts silentOk events = (r, q)"
      by (cases "authenticate p accounts silentOk events")
    from run auth have checks: "validateTenant q = Inr True" "validateUser q = Inr True"
      and p': "p' = getGraphClient q"
      by (auto simp: MCPTeamsServer_start_def Let_def split: sum.splits if_splits)
    from checks(1) obtain acct where acct: "currentAccount q = Some acct"
      by (cases "currentAccount q") (auto simp: validateTenant_def)
    with checks have "tenantId acct = expectedTenantId" "endsWith (username acct) ''@timelarp.com''"
      by (auto simp: validateTenant_def validateUser_def split: if_splits)
    moreover have "currentAccount p' = Some acct"
      using acct p' by (simp add: getGraphClient_def)
    ultimately show ?thesis by blast
  qed
  have refused: "MCPTeamsServer_start p accounts silentOk events connectOk = (Exit 1, q)"
    if "authenticate p accounts silentOk events = (Inr (), q)"
      "validateTenant q = Inr False \<or> validateUser q = Inr False"
  proof -
    obtain b where "validateTenant q = Inr b"
      using validateTenant_returns by blast
    with that show ?thesis
      by (cases b) (auto simp: MCPTeamsServer_start_def)
  qed
  have cached: "authenticate p (firstAccount # cached) True events
        = (Inr (), p\<lparr>currentAccount := Some firstAccount\<rparr>)"
    by (rule authenticate_cached)
  show ?thesis using one cached admitted refused by blast
qed

text \<open>
  The witness of the amended C3 is \<open>MCPTeamsServer.start\<close> with a cached account of the
  configured tenant and domain, which runs, and with a cached account of another domain,
  which exits.
\<close>

theorem session_admission_at_start_witness:
  "MCPTeamsServer_start newProvider [memberAccount] True [] True
     = (Running, \<lparr>currentAccount = Some memberAccount, graphClient = Some ()\<rparr>)
   \<and> tenantId memberAccount = expectedTenantId
   \<and> endsWith (username memberAccount) ''@timelarp.com''
   \<and> authenticate newProvider [contractorAccount] True []
       = (Inr (), \<lparr>currentAccount = Some contractorAccount, graphClient = None\<rparr>)
   \<and> validateUser \<lparr>currentAccount = Some contractorAccount, graphClient = None\<rparr> = Inr False
   \<and> MCPTeamsServer_start newProvider [contractorAccount] True [] True
       = (Exit 1, \<lparr>currentAccount = Some contractorAccount, graphClient = None\<rparr>)"
proof -
  have run: "MCPTeamsServer_start newProvider [memberAccount] True [] True
     = (Running, \<lparr>currentAccount = Some memberAccount, graphClient = Some ()\<rparr>)"
    by (simp add: MCPTeamsServer_start_def authenticate_cached newProvider_def
        validateTenant_def validateUser_def memberAccount_def expectedTenantId_def
        endsWith_def getGraphClient_def)
  have auth: "authenticate newProvider [contractorAccount] True []
       = (Inr (), \<lparr>currentAccount = Some contractorAccount, graphClient = None\<rparr>)"
    using session_admission_at_start
      [where p = newProvider and firstAccount = contractorAccount and cached = "[]" and events = "[]"]
    by (simp add: newProvider_def)
  have bad:
    "validateUser \<lparr>currentAccount = Some contractorAccount, graphClient = None\<rparr> = Inr False"
    by (simp add: validateUser_def contractorAccount_def endsWith_def)
  from session_admission_at_start
    [where p = newProvider and accounts = "[memberAccount]" and silentOk = True
       and events = "[]" and connectOk = True
       and p' = "\<lparr>currentAccount = Some memberAccount, graphClient = Some ()\<rparr>"] run
  have "tenantId memberAccount = expectedTenantId
      \<and> endsWith (username memberAccount) ''@timelarp.com''"
    by simp
  moreover from session_admission_at_start
    [where p = newProvider and accounts = "[contractorAccount]" and silentOk = True
       and events = "[]" and connectOk = True
       and q = "\<lparr>currentAccount = Some contractorAccount, graphClient = None\<rparr>"] auth bad
  have "MCPTeamsServer_start newProvider [contractorAccount] True [] True
       = (Exit 1, \<lparr>currentAccount = Some contractorAccount, graphClient = None\<rparr>)"
    by blast
  ultimately show ?thesis using run auth bad by simp
qed

subsection \<open>The redirect listener\<close>

text \<open>
  Claim C2 says that the listener is stopped on every exit path of the interactive login
  before the caller resumes. The code stops it where the promise is resolved and in the
  timer's callback only. A request to \<open>/redirect\<close> without a code, a token exchange that
  fails and a failure to open the authorization URL each reject the promise while the
  server still listens on port 3000; the successful exchange and the timeout return with
  the listener closed.
\<close>

theorem listener_left_open_on_rejection:
  "interactiveLogin p [Redirect None exchange]
     = (\<lparr>owner = p, listening = True\<rparr>, Reject (Error ''No authorization code received''))
   \<and> interactiveLogin p [Redirect (Some ''0.AAA'') (Inl e)]
     = (\<lparr>owner = p, listening = True\<rparr>, Reject e)
   \<and> interactiveLogin p [ListenCallback (Some e)]
     = (\<lparr>owner = p, listening = True\<rparr>, Reject e)
   \<and> interactiveLogin p [ListenCallback None, Redirect (Some ''0.AAA'') (Inr acct)]
     = (\<lparr>owner = p\<lparr>currentAccount := acct\<rparr>, listening = False\<rparr>, Resolve)
   \<and> interactiveLogin p [ListenCallback None]
     = (\<lparr>owner = p, listening = False\<rparr>, Reject timeoutError)"
  by (simp add: interactiveLogin_def onRedirect_def onListenCallback_def onTimeout_def)


subsection \<open>Token cache persistence\<close>

text \<open>
  Claim C9. \<open>afterCacheAccess\<close> with \<open>hasChanged\<close> false leaves the files and the console
  as they are, so the token cache file is written only when the cache reports a change.
  Neither hook ever rejects: whatever the \<open>try\<close> block of \<open>afterCacheAccess\<close> throws is
  logged as a failed write, whatever the \<open>try\<close> block of \<open>beforeCacheAccess\<close> throws is
  logged and leaves the in-memory cache as it was, and an absent cache file is such a case.
\<close>

theorem cache_persistence_is_best_effort:
  "(\<not> hasChanged cacheContext \<longrightarrow>
      afterCacheAccess serialize mkdirFault writeFault fs cacheContext console
        = Inr (fs, console))
   \<and> (afterCacheAccess serialize mkdirFault writeFault fs cacheContext console
        = Inr (fs', console')
       \<and> tokenCacheFile fs' \<noteq> tokenCacheFile fs \<longrightarrow> hasChanged cacheContext)
   \<and> (\<exists>r. afterCacheAccess serialize mkdirFault writeFault fs cacheContext console = Inr r)
   \<and> (\<exists>r. beforeCacheAccess deserialize readFault fs cacheContext console = Inr r)
   \<and> (hasChanged cacheContext
       \<and> afterCacheAccess_try serialize mkdirFault writeFault fs cacheContext = (fs1, Some e)
       \<longrightarrow> afterCacheAccess serialize mkdirFault writeFault fs cacheContext console
             = Inr (fs1, console @ [''Failed to write token cache:'']))
   \<and> (beforeCacheAccess_try deserialize readFault fs cacheContext = Inl e \<longrightarrow>
        beforeCacheAccess deserialize readFault fs cacheContext console
          = Inr (cacheContext,
                 console @ [''No existing token cache found, will create new one'']))
   \<and> (tokenCacheFile fs = None \<longrightarrow>
        beforeCacheAccess deserialize readFault fs cacheContext console
          = Inr (cacheContext,
                 console @ [''No existing token cache found, will create new one'']))"
proof -
  have clean: "afterCacheAccess serialize mkdirFault writeFault fs cacheContext console
        = Inr (fs, console)" if "\<not> hasChanged cacheContext"
    using that by (simp add: afterCacheAccess_def)
  then have dirty: "hasChanged cacheContext"
    if "afterCacheAccess serialize mkdirFault writeFault fs cacheContext console
        = Inr (fs', console')" "tokenCacheFile fs' \<noteq> tokenCacheFile fs"
    using that by auto
  have failed: "afterCacheAccess serialize mkdirFault writeFault fs cacheContext console
             = Inr (fs1, console @ [''Failed to write token cache:''])"
    if "hasChanged cacheContext"
      "afterCacheAccess_try serialize mkdirFault writeFault fs cacheContext = (fs1, Some e)"
    using that by (simp add: afterCacheAccess_def)
  have caught: "beforeCacheAccess deserialize readFault fs cacheContext console
          = Inr (cacheContext,
                 console @ [''No existing token cache found, will create new one''])"
    if "beforeCacheAccess_try deserialize readFault fs cacheContext = Inl e" for e
    using that by (simp add: beforeCacheAccess_def)
  have absent: "beforeCacheAccess deserialize readFault fs cacheContext console
          = Inr (cacheContext,
                 console @ [''No existing token cache found, will create new one''])"
    if "tokenCacheFile fs = None"
  proof -
    have "\<exists>e. beforeCacheAccess_try deserialize readFault fs cacheContext = Inl e"
      using that by (simp add: beforeCacheAccess_try_def readFile_def split: option.split)
    then show ?thesis using caught by blast
  qed
  show ?thesis
    using clean dirty failed caught absent afterCacheAccess_returns beforeCacheAccess_returns
    by blast
qed

text \<open>
  The witness of C9: an unchanged cache writes nothing, a changed one creates the directory
  and the file, a write that fails is logged, and a load without a file is logged.
\<close>

theorem cache_persistence_is_best_effort_witness:
  "afterCacheAccess plainSerialize None None \<lparr>cacheDir = True, tokenCacheFile = Some ''old''\<rparr>
      \<lparr>hasChanged = False, tokenCache = ''new''\<rparr> []
     = Inr (\<lparr>cacheDir = True, tokenCacheFile = Some ''old''\<rparr>, [])
   \<and> afterCacheAccess plainSerialize None None \<lparr>cacheDir = False, tokenCacheFile = None\<rparr>
      \<lparr>hasChanged = True, tokenCache = ''new''\<rparr> []
     = Inr (\<lparr>cacheDir = True, tokenCacheFile = Some ''new''\<rparr>, [''Token cache updated''])
   \<and> afterCacheAccess plainSerialize None (Some (Error ''EACCES''))
      \<lparr>cacheDir = True, tokenCacheFile = Some ''old''\<rparr>
      \<lparr>hasChanged = True, tokenCache = ''new''\<rparr> []
     = Inr (\<lparr>cacheDir = True, tokenCacheFile = Some ''old''\<rparr>,
            [''Failed to write token cache:''])
   \<and> beforeCacheAccess plainDeserialize None \<lparr>cacheDir = False, tokenCacheFile = None\<rparr>
      \<lparr>hasChanged = False, tokenCache = ''''\<rparr> []
     = Inr (\<lparr>hasChanged = False, tokenCache = ''''\<rparr>,
            [''No existing token cache found, will create new one''])"
proof -
  have a: "\<not> hasChanged \<lparr>hasChanged = False, tokenCache = ''new''\<rparr>"
    by simp
  have b: "hasChanged \<lparr>hasChanged = True, tokenCache = ''new''\<rparr>
     \<and> afterCacheAccess_try plainSerialize None (Some (Error ''EACCES''))
         \<lparr>cacheDir = True, tokenCacheFile = Some ''old''\<rparr>
         \<lparr>hasChanged = True, tokenCache = ''new''\<rparr>
       = (\<lparr>cacheDir = True, tokenCacheFile = Some ''old''\<rparr>, Some (Error ''EACCES''))"
    by (simp add: afterCacheAccess_try_def mkdir_def writeFile_def plainSerialize_def)
  have c: "tokenCacheFile \<lparr>cacheDir = False, tokenCacheFile = None\<rparr> = None"
    by simp
  have "afterCacheAccess plainSerialize None None \<lparr>cacheDir = True, tokenCacheFile = Some ''old''\<rparr>
      \<lparr>hasChanged = False, tokenCache = ''new''\<rparr> []
     = Inr (\<lparr>cacheDir = True, tokenCacheFile = Some ''old''\<rparr>, [])"
    using cache_persistence_is_best_effort
      [of "\<lparr>hasChanged = False, tokenCache = ''new''\<rparr>" plainSerialize None None
          "\<lparr>cacheDir = True, tokenCacheFile = Some ''old''\<rparr>" "[]"] a
    by blast
  moreover have "afterCacheAccess plainSerialize None (Some (Error ''EACCES''))
      \<lparr>cacheDir = True, tokenCacheFile = Some ''old''\<rparr>
      \<lparr>hasChanged = True, tokenCache = ''new''\<rparr> []
     = Inr (\<lparr>cacheDir = True, tokenCacheFile = Some ''old''\<rparr>,
            [] @ [''Failed to write token cache:''])"
    using cache_persistence_is_best_effort
      [of "\<lparr>hasChanged = True, tokenCache = ''new''\<rparr>" plainSerialize None
          "Some (Error ''EACCES'')" "\<lparr>cacheDir = True, tokenCacheFile = Some ''old''\<rparr>" "[]"
          _ _ _ _ "\<lparr>cacheDir = True, tokenCacheFile = Some ''old''\<rparr>" "Error ''EACCES''"] b
    by blast
  moreover have "beforeCacheAccess plainDeserialize None \<lparr>cacheDir = False, tokenCacheFile = None\<rparr>
      \<lparr>hasChanged = False, tokenCache = ''''\<rparr> []
     = Inr (\<lparr>hasChanged = False, tokenCache = ''''\<rparr>,
            [] @ [''No existing token cache found, will create new one''])"
    using cache_persistence_is_best_effort
      [of "\<lparr>hasChanged = False, tokenCache = ''''\<rparr>" _ _ _
          "\<lparr>cacheDir = False, tokenCacheFile = None\<rparr>" "[]" _ _ plainDeserialize None] c
    by blast
  moreover have "afterCacheAccess plainSerialize None None \<lparr>cacheDir = False, tokenCacheFile = None\<rparr>
      \<lparr>hasChanged = True, tokenCache = ''new''\<rparr> []
     = Inr (\<lparr>cacheDir = True, tokenCacheFile = Some ''new''\<rparr>, [''Token cache updated''])"
    by (simp add: afterCacheAccess_def afterCacheAccess_try_def mkdir_def writeFile_def
        plainSerialize_def)
  ultimately show ?thesis by simp
qed


end
